theory Spec2Isabelle
  imports Complex_Main "HOL-Library.Log_Nat"
begin

section \<open>Python values used by app.py\<close>

text \<open>
  The exceptions the script can end with. \<open>InferenceError\<close> stands for whatever
  exception the artifact's own \<open>predict\<close> raises.
\<close>

datatype error =
    FileNotFoundError
  | PermissionError
  | UnpicklingError
  | ZeroDivisionError
  | KeyError string
  | IndexError
  | InferenceError

subsection \<open>Floats\<close>

text \<open>
  A Python float is an IEEE binary64 number. It is modelled by the real number it
  denotes, and every operation rounds its exact result to 53 significant bits, to
  nearest with ties to even (\<open>to_float\<close>). The exponent range of binary64 is not
  modelled: \<open>to_float\<close> agrees with the machine for magnitudes from \<open>2 powi -1022\<close>
  up to the largest double, which covers every value the sliders of app.py can produce;
  infinities and NaN are outside the model.
\<close>

definition round_half_even :: "real \<Rightarrow> int" where
  "round_half_even x =
     (let n = \<lfloor>x\<rfloor>; d = x - of_int n
      in if d < 1 / 2 then n else if 1 / 2 < d then n + 1 else if even n then n else n + 1)"

text \<open>\<open>ilog2 x\<close> is the binary exponent of a positive \<open>x\<close>: \<open>2 powi ilog2 x \<le> x < 2 powi (ilog2 x + 1)\<close>.\<close>

definition ilog2 :: "real \<Rightarrow> int" where
  "ilog2 x = (if 1 \<le> x then bitlen \<lfloor>x\<rfloor> - 1 else - bitlen (\<lceil>1 / x\<rceil> - 1))"

definition to_float :: "real \<Rightarrow> real" where
  "to_float x =
     (if x = 0 then 0
      else let ulp = 2 powi (ilog2 \<bar>x\<bar> - 52)
           in sgn x * of_int (round_half_even (\<bar>x\<bar> / ulp)) * ulp)"

text \<open>
  \<open>round(x, ndigits)\<close> on a float: CPython rounds the exact value of \<open>x\<close> to
  \<open>ndigits\<close> decimals, ties to even, and returns the double nearest to that decimal.
\<close>

definition py_round :: "real \<Rightarrow> nat \<Rightarrow> real" where
  "py_round x ndigits = to_float (of_int (round_half_even (x * 10 ^ ndigits)) / 10 ^ ndigits)"

text \<open>
  The number printed by the format specification \<open>.2f\<close>: the exact value rounded to two
  decimals, ties to even. It is a decimal string, so no rounding to binary follows.
\<close>

definition format_2f :: "real \<Rightarrow> real" where
  "format_2f x = of_int (round_half_even (x * 100)) / 100"

subsection \<open>Strings\<close>

text \<open>
  A \<open>char\<close> is a code point below 256. \<open>str.lower\<close> maps the capital letters of that
  range (A to Z, and the Latin-1 capitals other than the multiplication sign) 32 places
  up and leaves every other code point alone. Code points from 256 on are outside the
  model.
\<close>

definition lower_char :: "char \<Rightarrow> char" where
  "lower_char c =
     (let n = (of_char c :: nat)
      in if (65 \<le> n \<and> n \<le> 90) \<or> (192 \<le> n \<and> n \<le> 222 \<and> n \<noteq> 215)
         then char_of (n + 32) else c)"

definition lower :: "string \<Rightarrow> string" where
  "lower s = map lower_char s"

section \<open>The model artifact and its loading (lines 15 to 23)\<close>

text \<open>One row of the data frame built at lines 82 to 85, a field per column.\<close>

record features =
  age_col :: int
  sex_col :: int
  bmi_col :: real
  children_col :: int
  smoker_col :: int
  region_col :: int

text \<open>
  Modelled from the spec: the pickled artifact Medical.pickle and the class of the
  object it holds are not among the source files. As the spec has it (4.3 and 6), the
  loaded object is a black box with one capability, \<open>predict\<close>, a function of the rows
  it is given that returns one number per row or fails; it keeps no state of its own.
  Equal rows thereby give equal results by the very type of \<open>predict\<close>: that is the
  spec's assumption about the artifact, not a property established of its code.
\<close>

datatype model = Model (predict: "features list \<Rightarrow> error + real list")

datatype entry = Regular string | Unreadable

text \<open>
  What the script reads from its surroundings: the directory of app.py, the files on
  disk, and \<open>pickle.load\<close>, which yields an object or fails on the bytes it is given.
\<close>

record env =
  script_dir :: string
  disk :: "string \<rightharpoonup> entry"
  pickle_load :: "string \<Rightarrow> model option"

definition path_join :: "string \<Rightarrow> string \<Rightarrow> string" where
  "path_join d name =
     (if d = [] then name else if last d = CHR ''/'' then d @ name else d @ ''/'' @ name)"

definition open_rb :: "env \<Rightarrow> string \<Rightarrow> error + string" where
  "open_rb e p =
     (case disk e p of
        None \<Rightarrow> Inl FileNotFoundError
      | Some Unreadable \<Rightarrow> Inl PermissionError
      | Some (Regular bytes) \<Rightarrow> Inr bytes)"

definition load_model :: "env \<Rightarrow> error + model" where
  "load_model e =
     (let file_path = path_join (script_dir e) ''Medical.pickle''
      in case open_rb e file_path of
           Inl err \<Rightarrow> Inl err
         | Inr f \<Rightarrow> (case pickle_load e f of None \<Rightarrow> Inl UnpicklingError | Some m \<Rightarrow> Inr m))"

text \<open>
  What outlives one run of the script: the store of \<open>st.cache_resource\<close>, empty until
  \<open>load_model\<close> has returned once, and the log of the data frames \<open>model.predict\<close>
  has been called with, which records the one effect of line 90.
\<close>

record session =
  cache :: "model option"
  calls :: "features list list"

text \<open>
  The decorator of line 15: a stored object is returned without running the function;
  otherwise the function runs, and its result is stored unless it raised.
\<close>

definition cache_resource :: "(env \<Rightarrow> error + model) \<Rightarrow> env \<Rightarrow> session \<Rightarrow> session \<times> (error + model)" where
  "cache_resource f e s =
     (case cache s of
        Some m \<Rightarrow> (s, Inr m)
      | None \<Rightarrow> (case f e of Inl err \<Rightarrow> (s, Inl err) | Inr m \<Rightarrow> (s\<lparr>cache := Some m\<rparr>, Inr m)))"

section \<open>The BMI calculator (lines 53 to 55)\<close>

text \<open>
  \<open>round(weight / ((height / 100) ** 2), 2)\<close> on two ints: the true division of ints
  and the division of floats are correctly rounded, a float divisor equal to zero raises
  ZeroDivisionError, and the square is taken to be correctly rounded too (the C library's
  \<open>pow\<close> gives it so for every height of the slider).
\<close>

definition bmi_calculated :: "int \<Rightarrow> int \<Rightarrow> error + real" where
  "bmi_calculated height weight =
     (let metres = to_float (of_int height / 100);
          squared = to_float (metres ^ 2)
      in if squared = 0 then Inl ZeroDivisionError
         else Inr (py_round (to_float (to_float (of_int weight) / squared)) 2))"

section \<open>The prediction logic (lines 75 to 105)\<close>

text \<open>The values of the widgets in one run of the script.\<close>

record widgets =
  height :: int
  weight :: int
  age :: int
  sex :: string
  children :: int
  smoker :: string
  region :: string
  button :: bool

text \<open>Lines 53 and 54: the values the two sliders can return.\<close>

definition on_sliders :: "widgets \<Rightarrow> bool" where
  "on_sliders ws \<longleftrightarrow>
     140 \<le> height ws \<and> height ws \<le> 220 \<and> 40 \<le> weight ws \<and> weight ws \<le> 150"

definition sex_num :: "string \<Rightarrow> int" where
  "sex_num s = (if s = ''Female'' then 0 else 1)"

definition smoker_num :: "string \<Rightarrow> int" where
  "smoker_num s = (if s = ''No'' then 0 else 1)"

definition region_map :: "string \<rightharpoonup> int" where
  "region_map = [''southwest'' \<mapsto> 0, ''southeast'' \<mapsto> 1, ''northwest'' \<mapsto> 2, ''northeast'' \<mapsto> 3]"

definition region_num :: "string \<Rightarrow> error + int" where
  "region_num r =
     (case region_map (lower r) of None \<Rightarrow> Inl (KeyError (lower r)) | Some n \<Rightarrow> Inr n)"

text \<open>Lines 77 to 85: the encoding of the selections and the one-row data frame.\<close>

definition input_data :: "widgets \<Rightarrow> real \<Rightarrow> error + features list" where
  "input_data w bmi =
     (case region_num (region w) of
        Inl err \<Rightarrow> Inl err
      | Inr rn \<Rightarrow>
          Inr [\<lparr>age_col = age w, sex_col = sex_num (sex w), bmi_col = bmi,
                children_col = children w, smoker_col = smoker_num (smoker w),
                region_col = rn\<rparr>])"

text \<open>
  Lines 100 to 105: the message shown under the cost, \<open>st.info\<close> for a low cost,
  \<open>st.warning\<close> for a moderate one and \<open>st.error\<close> for a high one.
\<close>

datatype tier = Low | Moderate | High

definition classify :: "real \<Rightarrow> tier" where
  "classify cost =
     (if cost < 5000 then Low
      else if 5000 \<le> cost \<and> cost < 15000 then Moderate
      else High)"

text \<open>What one run puts on the page: the BMI metric and, after a click, the cost metric
  and the message.\<close>

record display =
  bmi_metric :: real
  cost_metric :: "real option"
  message :: "tier option"

text \<open>
  One run of the script, top to bottom. An exception ends the run; the session keeps
  what had happened before it.
\<close>

definition app :: "env \<Rightarrow> widgets \<Rightarrow> session \<Rightarrow> session \<times> (error + display)" where
  "app e w s =
     (case cache_resource load_model e s of
        (s1, Inl err) \<Rightarrow> (s1, Inl err)
      | (s1, Inr m) \<Rightarrow>
          (case bmi_calculated (height w) (weight w) of
             Inl err \<Rightarrow> (s1, Inl err)
           | Inr bmi \<Rightarrow>
               if \<not> button w
               then (s1, Inr \<lparr>bmi_metric = bmi, cost_metric = None, message = None\<rparr>)
               else
                 (case input_data w bmi of
                    Inl err \<Rightarrow> (s1, Inl err)
                  | Inr rows \<Rightarrow>
                      let s2 = s1\<lparr>calls := calls s1 @ [rows]\<rparr>
                      in (case predict m rows of
                            Inl err \<Rightarrow> (s2, Inl err)
                          | Inr prediction \<Rightarrow>
                              (case prediction of
                                 [] \<Rightarrow> (s2, Inl IndexError)
                               | cost # _ \<Rightarrow>
                                   (s2, Inr \<lparr>bmi_metric = bmi,
                                             cost_metric = Some (format_2f cost),
                                             message = Some (classify cost)\<rparr>))))))"


section \<open>Example surroundings\<close>

text \<open>
  A predictor that answers \<open>c\<close> for every row, an installation whose artifact unpickles
  to a given object, the session of a process that has just started, and the default
  values of the widgets (lines 53 to 69) with the button clicked.
\<close>

definition constant_model :: "real \<Rightarrow> model" where
  "constant_model c = Model (\<lambda>rows. Inr (map (\<lambda>_. c) rows))"

definition installed :: "model \<Rightarrow> env" where
  "installed m =
     \<lparr>script_dir = ''/srv/app'',
      disk = [''/srv/app/Medical.pickle'' \<mapsto> Regular ''pickled''],
      pickle_load = (\<lambda>bytes. if bytes = ''pickled'' then Some m else None)\<rparr>"

definition not_installed :: env where
  "not_installed =
     \<lparr>script_dir = ''/srv/app'', disk = Map.empty, pickle_load = (\<lambda>bytes. None)\<rparr>"

definition fresh :: session where
  "fresh = \<lparr>cache = None, calls = []\<rparr>"

definition defaults :: widgets where
  "defaults =
     \<lparr>height = 175, weight = 70, age = 30, sex = ''Male'', children = 0,
      smoker = ''Yes'', region = ''Southwest'', button = True\<rparr>"

section \<open>The feature encoding\<close>

lemma region_map_None_iff:
  "region_map k = None \<longleftrightarrow> k \<notin> {''southwest'', ''southeast'', ''northwest'', ''northeast''}"
  by (simp add: region_map_def)

lemma input_data_Inl_iff:
  "input_data w b = Inl err \<longleftrightarrow>
     region_map (lower (region w)) = None \<and> err = KeyError (lower (region w))"
  by (auto simp: input_data_def region_num_def split: option.splits)

text \<open>
  C1. The encoding table: Female is 0 and Male is 1; No is 0 and Yes is 1; a region
  is looked up by its lower-cased name, southwest 0, southeast 1, northwest 2 and
  northeast 3, so two regions with the same lower-casing have the same encoding.
\<close>

theorem encoding_table:
  "sex_num ''Female'' = 0 \<and> sex_num ''Male'' = 1 \<and>
   smoker_num ''No'' = 0 \<and> smoker_num ''Yes'' = 1 \<and>
   (lower r = ''southwest'' \<longrightarrow> region_num r = Inr 0) \<and>
   (lower r = ''southeast'' \<longrightarrow> region_num r = Inr 1) \<and>
   (lower r = ''northwest'' \<longrightarrow> region_num r = Inr 2) \<and>
   (lower r = ''northeast'' \<longrightarrow> region_num r = Inr 3) \<and>
   (lower r = lower r' \<longrightarrow> region_num r = region_num r')"
  by (simp add: sex_num_def smoker_num_def region_num_def region_map_def)

theorem encoding_table_witness:
  "lower ''SOUTHEAST'' = ''southeast'' \<and> lower ''SOUTHEAST'' = lower ''southeast'' \<and>
   region_num ''SOUTHEAST'' = Inr 1 \<and> region_num ''southeast'' = Inr 1"
proof -
  have up: "lower ''SOUTHEAST'' = ''southeast''"
    by code_simp
  have low: "lower ''southeast'' = ''southeast''"
    by code_simp
  from encoding_table [of "''SOUTHEAST''" "''southeast''"]
       encoding_table [of "''southeast''" "''SOUTHEAST''"] up low
  show ?thesis
    by simp
qed

text \<open>
  C3, as the code has it. Only the region can make the encoding fail: a region whose
  lower-casing is not one of the four names raises KeyError, the run ends with an
  exception and the predictor is not called. Whatever the sex and the smoker
  selections are, a region of the table is encoded without an error.
\<close>

theorem unknown_region_raises_before_predict:
  "(lower (region w) \<notin> {''southwest'', ''southeast'', ''northwest'', ''northeast''} \<longrightarrow>
      input_data w b = Inl (KeyError (lower (region w))) \<and>
      calls (fst (app e w s)) = calls s \<and>
      (button w \<longrightarrow> isl (snd (app e w s)))) \<and>
   (lower (region w) \<in> {''southwest'', ''southeast'', ''northwest'', ''northeast''} \<longrightarrow>
      \<not> isl (input_data w b))"
proof (intro conjI impI)
  assume out: "lower (region w) \<notin> {''southwest'', ''southeast'', ''northwest'', ''northeast''}"
  then have none: "region_map (lower (region w)) = None"
    using region_map_None_iff by blast
  then show enc: "input_data w b = Inl (KeyError (lower (region w)))"
    by (simp add: input_data_Inl_iff)
  from none show "calls (fst (app e w s)) = calls s"
    by (auto simp: app_def cache_resource_def input_data_def region_num_def
             split: option.splits sum.splits prod.splits)
  assume "button w"
  with none show "isl (snd (app e w s))"
    by (auto simp: app_def cache_resource_def input_data_def region_num_def
             split: option.splits sum.splits prod.splits)
next
  assume "lower (region w) \<in> {''southwest'', ''southeast'', ''northwest'', ''northeast''}"
  then have "region_map (lower (region w)) \<noteq> None"
    using region_map_None_iff by blast
  then show "\<not> isl (input_data w b)"
    by (auto simp: input_data_def region_num_def split: option.splits)
qed

theorem unknown_region_raises_before_predict_witness:
  "lower ''Midwest'' \<notin> {''southwest'', ''southeast'', ''northwest'', ''northeast''} \<and>
   input_data (defaults\<lparr>region := ''Midwest''\<rparr>) 22.86 = Inl (KeyError ''midwest'') \<and>
   calls (fst (app (installed (constant_model 1000)) (defaults\<lparr>region := ''Midwest''\<rparr>) fresh)) = [] \<and>
   isl (snd (app (installed (constant_model 1000)) (defaults\<lparr>region := ''Midwest''\<rparr>) fresh)) \<and>
   lower ''Southwest'' \<in> {''southwest'', ''southeast'', ''northwest'', ''northeast''} \<and>
   \<not> isl (input_data (defaults\<lparr>sex := ''Other''\<rparr>) 22.86)"
proof -
  have mid: "lower ''Midwest'' = ''midwest''"
    by code_simp
  have sw: "lower ''Southwest'' = ''southwest''"
    by code_simp
  from unknown_region_raises_before_predict
         [of "defaults\<lparr>region := ''Midwest''\<rparr>" "22.86" "installed (constant_model 1000)" fresh]
       unknown_region_raises_before_predict
         [of "defaults\<lparr>sex := ''Other''\<rparr>" "22.86" "installed (constant_model 1000)" fresh]
       mid sw
  show ?thesis
    by (simp add: defaults_def fresh_def)
qed

text \<open>
  The claim C3 as the spec words it fails for the sex: with the sex \<open>Other\<close> the
  encoding step raises nothing, yields the row with sex 1, and the predictor is called
  with that row.
\<close>

theorem unknown_sex_reaches_predictor:
  "input_data (defaults\<lparr>sex := ''Other''\<rparr>) (to_float 22.86)
     = Inr [\<lparr>age_col = 30, sex_col = 1, bmi_col = to_float 22.86, children_col = 0,
             smoker_col = 1, region_col = 0\<rparr>] \<and>
   calls (fst (app (installed (constant_model 1000)) (defaults\<lparr>sex := ''Other''\<rparr>) fresh))
     = [[\<lparr>age_col = 30, sex_col = 1, bmi_col = to_float 22.86, children_col = 0,
            smoker_col = 1, region_col = 0\<rparr>]] \<and>
   \<not> isl (snd (app (installed (constant_model 1000)) (defaults\<lparr>sex := ''Other''\<rparr>) fresh))"
  by code_simp

text \<open>
  C10. Every sex other than \<open>Female\<close> is encoded as 1 and every smoker selection other
  than \<open>No\<close> is encoded as 1, an unknown one included; when the encoding raises, it is
  the KeyError of the region lookup.
\<close>

theorem sex_and_smoker_default_to_one:
  "(x \<noteq> ''Female'' \<longrightarrow> sex_num x = 1) \<and>
   (y \<noteq> ''No'' \<longrightarrow> smoker_num y = 1) \<and>
   (input_data w b = Inl err \<longrightarrow>
      err = KeyError (lower (region w)) \<and> region_map (lower (region w)) = None) \<and>
   (\<forall>rows. input_data w b = Inr rows \<longrightarrow>
      map sex_col rows = [if sex w = ''Female'' then 0 else 1] \<and>
      map smoker_col rows = [if smoker w = ''No'' then 0 else 1])"
proof (intro conjI impI allI)
  assume "input_data w b = Inl err"
  then show "err = KeyError (lower (region w))" and "region_map (lower (region w)) = None"
    by (simp_all add: input_data_Inl_iff)
next
  fix rows
  assume "input_data w b = Inr rows"
  then show "map sex_col rows = [if sex w = ''Female'' then 0 else 1]"
        and "map smoker_col rows = [if smoker w = ''No'' then 0 else 1]"
    by (auto simp: input_data_def sex_num_def smoker_num_def split: sum.splits)
qed (simp_all add: sex_num_def smoker_num_def)

theorem sex_and_smoker_default_to_one_witness:
  "''Other'' \<noteq> ''Female'' \<and> sex_num ''Other'' = 1 \<and>
   ''Sometimes'' \<noteq> ''No'' \<and> smoker_num ''Sometimes'' = 1 \<and>
   input_data (defaults\<lparr>region := ''Midwest''\<rparr>) 22.86 = Inl (KeyError ''midwest'') \<and>
   region_map (lower ''Midwest'') = None \<and>
   (\<exists>rows. input_data (defaults\<lparr>sex := ''Other'', smoker := ''Sometimes''\<rparr>) 22.86 = Inr rows \<and>
      map sex_col rows = [1] \<and> map smoker_col rows = [1])"
proof -
  have enc: "input_data (defaults\<lparr>region := ''Midwest''\<rparr>) 22.86 = Inl (KeyError ''midwest'')"
    by code_simp
  have low: "lower ''Midwest'' = ''midwest''"
    by code_simp
  obtain rows where rows:
      "input_data (defaults\<lparr>sex := ''Other'', smoker := ''Sometimes''\<rparr>) 22.86 = Inr rows"
    by (cases "input_data (defaults\<lparr>sex := ''Other'', smoker := ''Sometimes''\<rparr>) 22.86")
       (simp_all add: input_data_Inl_iff defaults_def, code_simp)
  from sex_and_smoker_default_to_one
         [of "''Other''" "''Sometimes''" "defaults\<lparr>region := ''Midwest''\<rparr>" "22.86"
             "KeyError ''midwest''"]
       sex_and_smoker_default_to_one
         [of "''Other''" "''Sometimes''" "defaults\<lparr>sex := ''Other'', smoker := ''Sometimes''\<rparr>"
             "22.86" "KeyError ''midwest''"]
       enc low rows
  show ?thesis
    by (simp add: defaults_def)
qed

section \<open>Loading the artifact and running the script\<close>



text \<open>A run that starts with the artifact in the store, spelled out.\<close>

lemma app_cached:
  assumes "cache s = Some m"
  shows "app e w s =
     (case bmi_calculated (height w) (weight w) of
        Inl err \<Rightarrow> (s, Inl err)
      | Inr bmi \<Rightarrow>
          if \<not> button w
          then (s, Inr \<lparr>bmi_metric = bmi, cost_metric = None, message = None\<rparr>)
          else
            (case input_data w bmi of
               Inl err \<Rightarrow> (s, Inl err)
             | Inr rows \<Rightarrow>
                 (case predict m rows of
                    Inl err \<Rightarrow> (s\<lparr>calls := calls s @ [rows]\<rparr>, Inl err)
                  | Inr prediction \<Rightarrow>
                      (case prediction of
                         [] \<Rightarrow> (s\<lparr>calls := calls s @ [rows]\<rparr>, Inl IndexError)
                       | cost # _ \<Rightarrow>
                           (s\<lparr>calls := calls s @ [rows]\<rparr>,
                            Inr \<lparr>bmi_metric = bmi, cost_metric = Some (format_2f cost),
                                 message = Some (classify cost)\<rparr>)))))"
  using assms by (simp add: app_def cache_resource_def Let_def split: sum.splits list.splits)





section \<open>The result classifier\<close>

text \<open>
  C2. The tier is defined for every real cost, negative ones included: Low exactly
  below 5000, Moderate exactly from 5000 up to but excluding 15000, High exactly from
  15000 on; the four boundary values of the spec land accordingly.
\<close>

theorem classify_thresholds:
  "(classify c = Low \<longleftrightarrow> c < 5000) \<and>
   (classify c = Moderate \<longleftrightarrow> 5000 \<le> c \<and> c < 15000) \<and>
   (classify c = High \<longleftrightarrow> 15000 \<le> c) \<and>
   classify 4999.99 = Low \<and> classify 5000 = Moderate \<and>
   classify 14999.99 = Moderate \<and> classify 15000 = High"
  by (simp add: classify_def)

theorem classify_thresholds_witness:
  "classify (- 1) = Low \<and> classify 9000 = Moderate \<and> classify 20000 = High"
  using classify_thresholds [of "- 1"] classify_thresholds [of 9000]
        classify_thresholds [of 20000]
  by simp

text \<open>
  C9. The cost that is classified is the first number the predictor returned, as it
  is: the message is \<open>classify\<close> of that number, while the cost metric shows it rounded
  to two decimals.
\<close>

theorem classification_uses_raw_prediction:
  assumes "cache s = Some m" and "button w"
    and "bmi_calculated (height w) (weight w) = Inr b"
    and "input_data w b = Inr rows"
    and "predict m rows = Inr (c # cs)"
  shows "snd (app e w s) =
     Inr \<lparr>bmi_metric = b, cost_metric = Some (format_2f c), message = Some (classify c)\<rparr>"
  using assms by (simp add: app_cached)

text \<open>
  At a predicted cost of 4999.996 the metric shows 5000.00, which alone would be
  Moderate, and the message is the one for Low.
\<close>

theorem classification_uses_raw_prediction_witness:
  "cache \<lparr>cache = Some (constant_model 4999.996), calls = []\<rparr> = Some (constant_model 4999.996) \<and>
   button defaults \<and>
   bmi_calculated (height defaults) (weight defaults) = Inr (to_float 22.86) \<and>
   input_data defaults (to_float 22.86)
     = Inr [\<lparr>age_col = 30, sex_col = 1, bmi_col = to_float 22.86, children_col = 0,
             smoker_col = 1, region_col = 0\<rparr>] \<and>
   predict (constant_model 4999.996)
       [\<lparr>age_col = 30, sex_col = 1, bmi_col = to_float 22.86, children_col = 0,
         smoker_col = 1, region_col = 0\<rparr>] = Inr [4999.996] \<and>
   snd (app not_installed defaults \<lparr>cache = Some (constant_model 4999.996), calls = []\<rparr>)
     = Inr \<lparr>bmi_metric = to_float 22.86, cost_metric = Some 5000, message = Some Low\<rparr> \<and>
   classify 5000 = Moderate"
proof -
  have bmi: "bmi_calculated (height defaults) (weight defaults) = Inr (to_float 22.86)"
    by code_simp
  have enc: "input_data defaults (to_float 22.86)
     = Inr [\<lparr>age_col = 30, sex_col = 1, bmi_col = to_float 22.86, children_col = 0,
             smoker_col = 1, region_col = 0\<rparr>]"
    by code_simp
  have pred: "predict (constant_model 4999.996)
       [\<lparr>age_col = 30, sex_col = 1, bmi_col = to_float 22.86, children_col = 0,
         smoker_col = 1, region_col = 0\<rparr>] = Inr [4999.996]"
    by (simp add: constant_model_def)
  have shown: "format_2f 4999.996 = 5000" "classify 4999.996 = Low" "classify 5000 = Moderate"
    by code_simp+
  have click: "button defaults"
    by (simp add: defaults_def)
  from classification_uses_raw_prediction
         [of "\<lparr>cache = Some (constant_model 4999.996), calls = []\<rparr>" "constant_model 4999.996"
             defaults, OF _ click bmi enc pred, of not_installed]
       bmi enc pred shown click
  show ?thesis
    by simp
qed

section \<open>Rounding to a float\<close>

text \<open>The binary exponent brackets its argument, so \<open>to_float\<close> is off by at most one part
  in \<open>2 ^ 53\<close>.\<close>

lemma ilog2_lower:
  assumes "0 < x"
  shows "2 powi ilog2 x \<le> x"
proof (cases "1 \<le> x")
  case True
  then have n: "0 < \<lfloor>x\<rfloor>" by linarith
  from bitlen_bounds[OF n] have "2 ^ nat (bitlen \<lfloor>x\<rfloor> - 1) \<le> \<lfloor>x\<rfloor>" by simp
  then have "(2::real) ^ nat (bitlen \<lfloor>x\<rfloor> - 1) \<le> of_int \<lfloor>x\<rfloor>"
    by (metis of_int_le_iff of_int_numeral of_int_power)
  also have "\<dots> \<le> x" by simp
  finally have "(2::real) ^ nat (bitlen \<lfloor>x\<rfloor> - 1) \<le> x" .
  moreover have "0 \<le> bitlen \<lfloor>x\<rfloor> - 1"
    using n by (simp add: bitlen_alt_def)
  ultimately show ?thesis using True
    by (simp add: ilog2_def power_int_def)
next
  case False
  with assms have x1: "1 < 1 / x" by simp
  then have c: "0 < \<lceil>1 / x\<rceil> - 1" by linarith
  from bitlen_bounds[OF c] have "\<lceil>1 / x\<rceil> - 1 < 2 ^ nat (bitlen (\<lceil>1 / x\<rceil> - 1))" by simp
  then have "\<lceil>1 / x\<rceil> \<le> 2 ^ nat (bitlen (\<lceil>1 / x\<rceil> - 1))" by simp
  then have "of_int \<lceil>1 / x\<rceil> \<le> (2::real) ^ nat (bitlen (\<lceil>1 / x\<rceil> - 1))"
    by (metis of_int_le_iff of_int_numeral of_int_power)
  moreover have "1 / x \<le> of_int \<lceil>1 / x\<rceil>" by simp
  ultimately have le: "1 / x \<le> (2::real) ^ nat (bitlen (\<lceil>1 / x\<rceil> - 1))" by linarith
  have b: "0 < bitlen (\<lceil>1 / x\<rceil> - 1)"
    using c by (simp add: bitlen_alt_def)
  from le assms have "1 / 2 ^ nat (bitlen (\<lceil>1 / x\<rceil> - 1)) \<le> x"
    by (simp add: field_simps)
  with False b show ?thesis
    by (simp add: ilog2_def power_int_def field_simps)
qed

lemma ilog2_upper:
  assumes "0 < x"
  shows "x < 2 powi (ilog2 x + 1)"
proof (cases "1 \<le> x")
  case True
  then have n: "0 < \<lfloor>x\<rfloor>" by linarith
  from bitlen_bounds[OF n] have "\<lfloor>x\<rfloor> + 1 \<le> 2 ^ nat (bitlen \<lfloor>x\<rfloor>)" by simp
  then have "of_int (\<lfloor>x\<rfloor> + 1) \<le> (2::real) ^ nat (bitlen \<lfloor>x\<rfloor>)"
    by (metis of_int_le_iff of_int_numeral of_int_power)
  moreover have "x < of_int (\<lfloor>x\<rfloor> + 1)" by linarith
  ultimately have "x < (2::real) ^ nat (bitlen \<lfloor>x\<rfloor>)" by linarith
  moreover have "0 \<le> bitlen \<lfloor>x\<rfloor>"
    by (rule bitlen_nonneg)
  ultimately show ?thesis using True
    by (simp add: ilog2_def power_int_def)
next
  case False
  with assms have x1: "1 < 1 / x" by simp
  then have c: "0 < \<lceil>1 / x\<rceil> - 1" by linarith
  from bitlen_bounds[OF c] have "2 ^ nat (bitlen (\<lceil>1 / x\<rceil> - 1) - 1) \<le> \<lceil>1 / x\<rceil> - 1" by simp
  then have "(2::real) ^ nat (bitlen (\<lceil>1 / x\<rceil> - 1) - 1) \<le> of_int (\<lceil>1 / x\<rceil> - 1)"
    by (metis of_int_le_iff of_int_numeral of_int_power)
  moreover have "of_int (\<lceil>1 / x\<rceil> - 1) < 1 / x" by linarith
  ultimately have lt: "(2::real) ^ nat (bitlen (\<lceil>1 / x\<rceil> - 1) - 1) < 1 / x" by linarith
  have b: "0 < bitlen (\<lceil>1 / x\<rceil> - 1)"
    using c by (simp add: bitlen_alt_def)
  from lt assms have "x < 1 / 2 ^ nat (bitlen (\<lceil>1 / x\<rceil> - 1) - 1)"
    by (simp add: field_simps)
  moreover have "2 powi (ilog2 x + 1) = 1 / (2::real) ^ nat (bitlen (\<lceil>1 / x\<rceil> - 1) - 1)"
  proof -
    from False b have "ilog2 x + 1 = - int (nat (bitlen (\<lceil>1 / x\<rceil> - 1) - 1))"
      by (simp add: ilog2_def)
    then have "2 powi (ilog2 x + 1) = (2::real) powi (- int (nat (bitlen (\<lceil>1 / x\<rceil> - 1) - 1)))"
      by (rule arg_cong)
    also have "\<dots> = 1 / (2::real) ^ nat (bitlen (\<lceil>1 / x\<rceil> - 1) - 1)"
      by (simp only: power_int_minus power_int_of_nat inverse_eq_divide)
    finally show ?thesis .
  qed
  ultimately show ?thesis
    by simp
qed

lemma round_half_even_error: "\<bar>of_int (round_half_even x) - x\<bar> \<le> 1 / 2"
proof -
  have "of_int \<lfloor>x\<rfloor> \<le> x" "x < of_int \<lfloor>x\<rfloor> + 1"
    by linarith+
  then show ?thesis
    by (auto simp: round_half_even_def Let_def)
qed

lemma round_half_even_of_int: "round_half_even (of_int k) = k"
  by (simp add: round_half_even_def)

lemma to_float_error: "\<bar>to_float x - x\<bar> \<le> \<bar>x\<bar> / 2 ^ 53"
proof (cases "x = 0")
  case True
  then show ?thesis by (simp add: to_float_def)
next
  case False
  define a where "a = \<bar>x\<bar>"
  define ulp :: real where "ulp = 2 powi (ilog2 a - 52)"
  define n where "n = round_half_even (a / ulp)"
  from False have a: "0 < a" by (simp add: a_def)
  have ulp: "0 < ulp" by (simp add: ulp_def)
  have half: "ulp / 2 \<le> a / 2 ^ 53"
  proof -
    have "ulp = 2 powi ilog2 a / 2 ^ 52"
      by (simp add: ulp_def power_int_diff)
    with ilog2_lower [OF a] show ?thesis
      by (simp add: field_simps)
  qed
  have "\<bar>of_int n - a / ulp\<bar> \<le> 1 / 2"
    unfolding n_def by (rule round_half_even_error)
  then have "\<bar>of_int n - a / ulp\<bar> * ulp \<le> 1 / 2 * ulp"
    using ulp by (intro mult_right_mono) simp_all
  moreover have "\<bar>of_int n - a / ulp\<bar> * ulp = \<bar>of_int n * ulp - a\<bar>"
  proof -
    from ulp have "of_int n * ulp - a = (of_int n - a / ulp) * ulp"
      by (simp add: field_simps)
    with ulp show ?thesis
      by (simp add: abs_mult)
  qed
  ultimately have near: "\<bar>of_int n * ulp - a\<bar> \<le> a / 2 ^ 53"
    using half by simp
  have "to_float x = sgn x * of_int n * ulp"
    using False by (simp add: to_float_def Let_def n_def ulp_def a_def)
  moreover have "x = sgn x * a"
    by (simp add: a_def sgn_mult_abs)
  ultimately have "to_float x - x = sgn x * (of_int n * ulp - a)"
    by (simp add: algebra_simps)
  then have "\<bar>to_float x - x\<bar> = \<bar>of_int n * ulp - a\<bar>"
    using False by (simp add: abs_mult abs_sgn_eq)
  with near show ?thesis
    by (simp add: a_def)
qed

lemma to_float_0 [simp]: "to_float 0 = 0"
  by (simp add: to_float_def)

lemma to_float_minus: "to_float (- x) = - to_float x"
  by (simp add: to_float_def Let_def sgn_minus)

lemma to_float_bounds:
  assumes "0 \<le> x"
  shows "x * (1 - 1 / 2 ^ 53) \<le> to_float x" and "to_float x \<le> x * (1 + 1 / 2 ^ 53)"
proof -
  from to_float_error [of x] assms have "\<bar>to_float x - x\<bar> \<le> x / 2 ^ 53"
    by simp
  then have "x - to_float x \<le> x / 2 ^ 53" and "to_float x - x \<le> x / 2 ^ 53"
    by linarith+
  then show "x * (1 - 1 / 2 ^ 53) \<le> to_float x" and "to_float x \<le> x * (1 + 1 / 2 ^ 53)"
    by (simp_all add: algebra_simps)
qed

lemma to_float_pos: "0 < x \<Longrightarrow> 0 < to_float x"
proof -
  assume x: "0 < x"
  then have "0 < x * (1 - 1 / 2 ^ 53)" by simp
  also from x have "\<dots> \<le> to_float x" by (intro to_float_bounds) simp
  finally show ?thesis .
qed

lemma to_float_eq_0_iff: "to_float x = 0 \<longleftrightarrow> x = 0"
proof
  assume z: "to_float x = 0"
  show "x = 0"
  proof (rule ccontr)
    assume "x \<noteq> 0"
    then consider "0 < x" | "0 < - x" by linarith
    then show False
    proof cases
      case 1
      from to_float_pos [OF 1] z show False by simp
    next
      case 2
      from to_float_pos [OF 2] z show False by (simp add: to_float_minus)
    qed
  qed
qed simp

section \<open>The BMI metric against the exact quotient\<close>

text \<open>
  An integer within a half of \<open>q\<close> is within a half of \<open>N / D\<close> too when \<open>q\<close> is
  closer to \<open>N / D\<close> than \<open>1 / (2 D)\<close>: twice the distance of an integer to \<open>N / D\<close>
  is a multiple of \<open>1 / D\<close>.
\<close>

lemma nearest_of_close:
  fixes k N D :: int and q :: real
  assumes D: "0 < D"
    and kq: "\<bar>of_int k - q\<bar> \<le> 1 / 2"
    and qx: "\<bar>q - of_int N / of_int D\<bar> < 1 / (2 * of_int D)"
  shows "\<bar>of_int k - of_int N / of_int D\<bar> \<le> (1 / 2 :: real)"
proof (rule ccontr)
  define A where "A = \<bar>of_int k - real_of_int N / of_int D\<bar>"
  assume "\<not> \<bar>of_int k - of_int N / of_int D\<bar> \<le> (1 / 2 :: real)"
  then have far: "1 / 2 < A"
    by (simp add: A_def)
  have scaled: "real_of_int \<bar>2 * k * D - 2 * N\<bar> = 2 * of_int D * A"
  proof -
    from D have "real_of_int (2 * k * D - 2 * N) = 2 * of_int D * (of_int k - real_of_int N / of_int D)"
      by (simp add: field_simps)
    then have "\<bar>real_of_int (2 * k * D - 2 * N)\<bar> = \<bar>2 * of_int D * (of_int k - real_of_int N / of_int D)\<bar>"
      by simp
    with D show ?thesis
      by (simp add: abs_mult A_def)
  qed
  from far D have "real_of_int D < 2 * of_int D * A"
    by (simp add: field_simps)
  with scaled have "real_of_int D < real_of_int \<bar>2 * k * D - 2 * N\<bar>"
    by simp
  then have "D < \<bar>2 * k * D - 2 * N\<bar>"
    by linarith
  then have "D + 1 \<le> \<bar>2 * k * D - 2 * N\<bar>"
    by simp
  then have "real_of_int (D + 1) \<le> real_of_int \<bar>2 * k * D - 2 * N\<bar>"
    by linarith
  with scaled have "real_of_int D + 1 \<le> 2 * of_int D * A"
    by simp
  with D have "1 / 2 + 1 / (2 * of_int D) \<le> A"
    by (simp add: field_simps)
  moreover have "A \<le> \<bar>of_int k - q\<bar> + \<bar>q - of_int N / of_int D\<bar>"
    unfolding A_def by linarith
  ultimately show False
    using kq qx by linarith
qed

text \<open>The float quotient of line 55 is within one part in \<open>10 ^ 15\<close> of the exact one.\<close>

lemma quotient_error:
  fixes H W :: real
  assumes H: "0 < H" and W: "0 \<le> W"
  defines "q \<equiv> to_float (to_float W / to_float ((to_float (H / 100))\<^sup>2))"
  defines "X \<equiv> W / (H / 100)\<^sup>2"
  shows "X * (1 - 1 / 10 ^ 15) \<le> q" and "q \<le> X * (1 + 1 / 10 ^ 15)"
proof -
  define c1 :: real where "c1 = 1 - 1 / 2 ^ 53"
  define c2 :: real where "c2 = 1 + 1 / 2 ^ 53"
  define a where "a = H / 100"
  define m where "m = to_float a"
  define sq where "sq = to_float (m\<^sup>2)"
  define Wf where "Wf = to_float W"
  define r where "r = Wf / sq"
  have c: "0 < c1" "0 < c2"
    by (simp_all add: c1_def c2_def)
  have a: "0 < a"
    using H by (simp add: a_def)
  have m: "a * c1 \<le> m" "m \<le> a * c2"
    unfolding m_def c1_def c2_def using a by (intro to_float_bounds; simp)+
  have m_pos: "0 < m"
    unfolding m_def using a by (rule to_float_pos)
  have m2: "(a * c1)\<^sup>2 \<le> m\<^sup>2" "m\<^sup>2 \<le> (a * c2)\<^sup>2"
    using m a c m_pos by (simp_all add: power_mono)
  have sq0: "m\<^sup>2 * c1 \<le> sq" "sq \<le> m\<^sup>2 * c2"
    unfolding sq_def c1_def c2_def by (intro to_float_bounds; simp)+
  have sq: "(a * c1)\<^sup>2 * c1 \<le> sq" "sq \<le> (a * c2)\<^sup>2 * c2"
  proof -
    from m2(1) c(1) have "(a * c1)\<^sup>2 * c1 \<le> m\<^sup>2 * c1"
      by (intro mult_right_mono) simp_all
    with sq0(1) show "(a * c1)\<^sup>2 * c1 \<le> sq" by linarith
    from m2(2) c(2) have "m\<^sup>2 * c2 \<le> (a * c2)\<^sup>2 * c2"
      by (intro mult_right_mono) simp_all
    with sq0(2) show "sq \<le> (a * c2)\<^sup>2 * c2" by linarith
  qed
  have low_pos: "0 < (a * c1)\<^sup>2 * c1"
    using a c by simp
  then have sq_pos: "0 < sq"
    using sq(1) by linarith
  have Wf: "W * c1 \<le> Wf" "Wf \<le> W * c2"
    unfolding Wf_def c1_def c2_def using W by (intro to_float_bounds; simp)+
  have Wf_nonneg: "0 \<le> Wf"
    using Wf(1) W c(1) by (meson mult_nonneg_nonneg less_imp_le order_trans)
  have r_low: "W * c1 / ((a * c2)\<^sup>2 * c2) \<le> r"
    unfolding r_def using Wf(1) sq(2) sq_pos Wf_nonneg
    by (intro frac_le) simp_all
  have r_up: "r \<le> W * c2 / ((a * c1)\<^sup>2 * c1)"
    unfolding r_def using Wf(2) sq(1) low_pos W c
    by (intro frac_le) simp_all
  have r_nonneg: "0 \<le> r"
    unfolding r_def using Wf_nonneg sq_pos by simp
  have "q = to_float r"
    by (simp add: q_def r_def Wf_def sq_def m_def a_def)
  with to_float_bounds [OF r_nonneg] have q: "r * c1 \<le> q" "q \<le> r * c2"
    by (simp_all only: c1_def c2_def)
  have X: "0 \<le> X" "W = X * a\<^sup>2"
    using W a by (simp_all add: X_def a_def)
  have "X * (c1\<^sup>2 / c2 ^ 3) = W * c1 / ((a * c2)\<^sup>2 * c2) * c1"
    using a c by (simp add: X(2) power2_eq_square power3_eq_cube)
  also have "\<dots> \<le> r * c1"
    using r_low c(1) by (intro mult_right_mono) simp_all
  also have "\<dots> \<le> q" by (rule q)
  finally have low: "X * (c1\<^sup>2 / c2 ^ 3) \<le> q" .
  have "q \<le> r * c2" by (rule q)
  also have "\<dots> \<le> W * c2 / ((a * c1)\<^sup>2 * c1) * c2"
    using r_up c(2) by (intro mult_right_mono) simp_all
  also have "\<dots> = X * (c2\<^sup>2 / c1 ^ 3)"
    using a c by (simp add: X(2) power2_eq_square power3_eq_cube)
  finally have up: "q \<le> X * (c2\<^sup>2 / c1 ^ 3)" .
  have num: "1 - 1 / 10 ^ 15 \<le> c1\<^sup>2 / c2 ^ 3" "c2\<^sup>2 / c1 ^ 3 \<le> 1 + 1 / 10 ^ 15"
    by (simp_all add: c1_def c2_def power2_eq_square power3_eq_cube)
  from num(1) X(1) have "X * (1 - 1 / 10 ^ 15) \<le> X * (c1\<^sup>2 / c2 ^ 3)"
    by (rule mult_left_mono)
  with low show "X * (1 - 1 / 10 ^ 15) \<le> q" by linarith
  from num(2) X(1) have "X * (c2\<^sup>2 / c1 ^ 3) \<le> X * (1 + 1 / 10 ^ 15)"
    by (rule mult_left_mono)
  with up show "q \<le> X * (1 + 1 / 10 ^ 15)" by linarith
qed

lemma bmi_calculated_nonzero:
  assumes "h \<noteq> 0"
  shows "bmi_calculated h w =
     Inr (py_round (to_float (to_float (of_int w) / to_float ((to_float (of_int h / 100))\<^sup>2))) 2)"
proof -
  from assms have "to_float (of_int h / 100) \<noteq> 0"
    by (simp add: to_float_eq_0_iff)
  then have "to_float ((to_float (of_int h / 100))\<^sup>2) \<noteq> 0"
    by (simp add: to_float_eq_0_iff)
  then show ?thesis
    by (simp add: bmi_calculated_def Let_def)
qed

lemma bmi_calculated_nearest:
  assumes h: "0 < h" and w: "0 \<le> w" "w \<le> 10 ^ 8"
  obtains k where "bmi_calculated h w = Inr (to_float (of_int k / 100))"
    and "\<bar>of_int k / 100 - of_int w / (of_int h / 100)\<^sup>2\<bar> \<le> (1 / 200 :: real)"
proof -
  define q where "q = to_float (to_float (of_int w) / to_float ((to_float (of_int h / 100))\<^sup>2))"
  define X :: real where "X = of_int w / (of_int h / 100)\<^sup>2"
  define k where "k = round_half_even (q * 100)"
  define N where "N = w * 10 ^ 6"
  define D where "D = h\<^sup>2"
  from h have D: "0 < D"
    by (simp add: D_def)
  from h have X100: "100 * X = of_int N / of_int D"
    by (simp add: X_def N_def D_def power2_eq_square)
  have X0: "0 \<le> X"
    using w(1) by (simp add: X_def)
  from h w(1) have "X * (1 - 1 / 10 ^ 15) \<le> q" and "q \<le> X * (1 + 1 / 10 ^ 15)"
    unfolding q_def X_def by (intro quotient_error; simp)+
  then have "X - X / 10 ^ 15 \<le> q" and "q \<le> X + X / 10 ^ 15"
    by (simp_all add: algebra_simps)
  then have "\<bar>q - X\<bar> \<le> X / 10 ^ 15"
    by linarith
  then have "\<bar>q * 100 - 100 * X\<bar> \<le> 100 * X / 10 ^ 15"
    by linarith
  also have "\<dots> = of_int N / of_int D / 10 ^ 15"
    by (simp only: X100)
  also have "\<dots> < 1 / (2 * of_int D)"
  proof -
    from w(2) have "2 * N < 10 ^ 15"
      by (simp add: N_def)
    then have "2 * real_of_int N < 10 ^ 15"
      by (metis of_int_less_iff of_int_mult of_int_numeral of_int_power)
    with D show ?thesis
      by (simp add: field_simps)
  qed
  finally have close: "\<bar>q * 100 - of_int N / of_int D\<bar> < 1 / (2 * of_int D)"
    by (simp only: X100)
  have "\<bar>of_int k - q * 100\<bar> \<le> 1 / 2"
    unfolding k_def by (rule round_half_even_error)
  with D have "\<bar>of_int k - of_int N / of_int D\<bar> \<le> (1 / 2 :: real)"
    using close by (rule nearest_of_close)
  then have "\<bar>of_int k - 100 * X\<bar> \<le> 1 / 2"
    by (simp only: X100)
  then have near: "\<bar>of_int k / 100 - X\<bar> \<le> 1 / 200"
    by linarith
  from h have "bmi_calculated h w = Inr (py_round q 2)"
    by (simp add: bmi_calculated_nonzero q_def)
  then have "bmi_calculated h w = Inr (to_float (of_int k / 100))"
    by (simp add: py_round_def k_def)
  with near show ?thesis
    by (intro that [of k]) (simp_all add: X_def)
qed

text \<open>Two hundredths apart stay apart as floats; exact quotients on the sliders' ranges.\<close>

lemma to_float_separates:
  assumes "0 \<le> a" and "a + 1 / 100 \<le> b" and "b \<le> 1000"
  shows "to_float a < to_float b"
proof -
  from assms have b: "0 \<le> b" by linarith
  have "to_float a \<le> a * (1 + 1 / 2 ^ 53)"
    using assms(1) by (rule to_float_bounds)
  moreover have "b * (1 - 1 / 2 ^ 53) \<le> to_float b"
    using b by (rule to_float_bounds)
  moreover have "a * (1 + 1 / 2 ^ 53) < b * (1 - 1 / 2 ^ 53)"
    using assms by (simp add: algebra_simps)
  ultimately show ?thesis
    by linarith
qed

lemma square_bounds:
  fixes x :: real
  assumes "0 \<le> a" and "a \<le> x" and "x \<le> b"
  shows "a * a \<le> x\<^sup>2" and "x\<^sup>2 \<le> b * b"
proof -
  from assms have "0 \<le> x" by linarith
  with assms show "a * a \<le> x\<^sup>2" and "x\<^sup>2 \<le> b * b"
    by (simp_all add: power2_eq_square mult_mono)
qed

lemma exact_bmi_bounds:
  fixes h w :: int
  assumes "140 \<le> h" "h \<le> 220" "40 \<le> w" "w \<le> 150"
  shows "8 \<le> real_of_int w / (of_int h / 100)\<^sup>2" and "real_of_int w / (of_int h / 100)\<^sup>2 \<le> 77"
proof -
  have lo: "(140::real)\<^sup>2 \<le> (of_int h)\<^sup>2" and hi: "(real_of_int h)\<^sup>2 \<le> 220\<^sup>2"
    using square_bounds [of 140 "real_of_int h" 220] assms by simp_all
  have pos: "0 < (real_of_int h)\<^sup>2"
    using assms by simp
  have eq: "real_of_int w / (of_int h / 100)\<^sup>2 = of_int w * 10000 / (of_int h)\<^sup>2"
    by (simp add: power_divide)
  have "8 \<le> (40 * 10000 :: real) / 220\<^sup>2"
    by simp
  also have "\<dots> \<le> of_int w * 10000 / (of_int h)\<^sup>2"
    using assms hi pos by (intro frac_le) simp_all
  finally show "8 \<le> real_of_int w / (of_int h / 100)\<^sup>2"
    by (simp only: eq)
  have "of_int w * 10000 / (real_of_int h)\<^sup>2 \<le> (150 * 10000) / 140\<^sup>2"
    using assms lo by (intro frac_le) simp_all
  also have "\<dots> \<le> (77 :: real)"
    by simp
  finally show "real_of_int w / (of_int h / 100)\<^sup>2 \<le> 77"
    by (simp only: eq)
qed

lemma exact_bmi_weight_gap:
  fixes h w1 w2 :: int
  assumes "140 \<le> h" "h \<le> 220" "w1 < w2"
  shows "real_of_int w1 / (of_int h / 100)\<^sup>2 + 1 / 5 \<le> real_of_int w2 / (of_int h / 100)\<^sup>2"
proof -
  have hi: "(real_of_int h)\<^sup>2 \<le> 220\<^sup>2"
    using square_bounds [of 140 "real_of_int h" 220] assms by simp
  have pos: "0 < (real_of_int h)\<^sup>2"
    using assms by simp
  from assms(3) have "real_of_int w1 + 1 \<le> real_of_int w2"
    by linarith
  then have step: "(real_of_int w2 - of_int w1) * 10000 \<ge> 1 * 10000"
    by simp
  have "(1 / 5 :: real) \<le> 1 * 10000 / 220\<^sup>2"
    by simp
  also have "\<dots> \<le> (real_of_int w2 - of_int w1) * 10000 / (of_int h)\<^sup>2"
    using step hi pos by (intro frac_le) simp_all
  also have "\<dots> = real_of_int w2 / (of_int h / 100)\<^sup>2 - real_of_int w1 / (of_int h / 100)\<^sup>2"
    by (simp add: power_divide diff_divide_distrib left_diff_distrib)
  finally show ?thesis
    by linarith
qed

lemma exact_bmi_height_gap:
  fixes h1 h2 w :: int
  assumes "140 \<le> h1" "h1 < h2" "h2 \<le> 220" "40 \<le> w"
  shows "real_of_int w / (of_int h2 / 100)\<^sup>2 + 1 / 40 \<le> real_of_int w / (of_int h1 / 100)\<^sup>2"
proof -
  define H1 H2 W where "H1 = real_of_int h1" and "H2 = real_of_int h2" and "W = real_of_int w"
  have H: "140 \<le> H1" "H1 + 1 \<le> H2" "H2 \<le> 220" "H1 \<le> 219" and W: "40 \<le> W"
    using assms by (simp_all add: H1_def H2_def W_def)
  have sq1: "H1\<^sup>2 \<le> 219\<^sup>2" and sq2: "H2\<^sup>2 \<le> 220\<^sup>2"
    using square_bounds [of 140 H1 219] square_bounds [of 140 H2 220] H by simp_all
  have pos: "0 < H1\<^sup>2" "0 < H2\<^sup>2"
    using H by simp_all
  have "(H1 + 1)\<^sup>2 \<le> H2\<^sup>2"
    using H by (intro power_mono) simp_all
  then have diff: "281 \<le> H2\<^sup>2 - H1\<^sup>2"
    using H(1) by (simp add: power2_sum)
  have prod: "H1\<^sup>2 * H2\<^sup>2 \<le> 219\<^sup>2 * 220\<^sup>2"
    using sq1 sq2 pos by (intro mult_mono) simp_all
  have num: "40 * 10000 * 281 \<le> W * 10000 * (H2\<^sup>2 - H1\<^sup>2)"
    using W diff by (intro mult_mono) simp_all
  have "(1 / 40 :: real) \<le> 40 * 10000 * 281 / (219\<^sup>2 * 220\<^sup>2)"
    by simp
  also have "\<dots> \<le> W * 10000 * (H2\<^sup>2 - H1\<^sup>2) / (H1\<^sup>2 * H2\<^sup>2)"
    using num prod pos W diff by (intro frac_le) simp_all
  also have "\<dots> = W / (H1 / 100)\<^sup>2 - W / (H2 / 100)\<^sup>2"
    using pos by (simp add: field_simps)
  finally show ?thesis
    unfolding H1_def H2_def W_def by linarith
qed

text \<open>
  C4. For a height from 1 to a million and a weight from 0 to a million, the BMI metric
  is the float nearest to a number of hundredths \<open>k / 100\<close> that lies within half a
  hundredth of the exact quotient \<open>weight / (height / 100)\<^sup>2\<close>: the quotient rounded to
  two decimals. For 175 cm and 70 kg it is 22.86.
\<close>

theorem bmi_is_rounded_quotient:
  "(0 < h \<and> h \<le> 10 ^ 6 \<and> 0 \<le> w \<and> w \<le> 10 ^ 6 \<longrightarrow>
      (\<exists>k. bmi_calculated h w = Inr (to_float (of_int k / 100)) \<and>
           \<bar>of_int k / 100 - of_int w / (of_int h / 100)\<^sup>2\<bar> \<le> (1 / 200 :: real))) \<and>
   bmi_calculated 175 70 = Inr (to_float 22.86)"
proof (intro conjI impI)
  assume dom: "0 < h \<and> h \<le> 10 ^ 6 \<and> 0 \<le> w \<and> w \<le> 10 ^ 6"
  then have "0 < h" "0 \<le> w" "w \<le> 10 ^ 8"
    by simp_all
  then obtain k where "bmi_calculated h w = Inr (to_float (of_int k / 100))"
      and "\<bar>of_int k / 100 - of_int w / (of_int h / 100)\<^sup>2\<bar> \<le> (1 / 200 :: real)"
    by (rule bmi_calculated_nearest)
  then show "\<exists>k. bmi_calculated h w = Inr (to_float (of_int k / 100)) \<and>
           \<bar>of_int k / 100 - of_int w / (of_int h / 100)\<^sup>2\<bar> \<le> (1 / 200 :: real)"
    by blast
next
  show "bmi_calculated 175 70 = Inr (to_float 22.86)"
    by code_simp
qed

text \<open>
  At 160 cm and 56 kg the exact quotient is the tie 21.875; the float quotient falls
  just below it and the metric is 21.87, one of the two nearest hundredths.
\<close>

theorem bmi_is_rounded_quotient_witness:
  "(0::int) < 160 \<and> (160::int) \<le> 10 ^ 6 \<and> (0::int) \<le> 56 \<and> (56::int) \<le> 10 ^ 6 \<and>
   (\<exists>k. bmi_calculated 160 56 = Inr (to_float (of_int k / 100)) \<and>
        \<bar>of_int k / 100 - of_int 56 / (of_int 160 / 100)\<^sup>2\<bar> \<le> (1 / 200 :: real)) \<and>
   bmi_calculated 160 56 = Inr (to_float 21.87) \<and>
   (56 / (160 / 100)\<^sup>2 :: real) = 21.875"
proof -
  have tie: "bmi_calculated 160 56 = Inr (to_float 21.87)"
    by code_simp
  have exact: "(56 / (160 / 100)\<^sup>2 :: real) = 21.875"
    by (simp add: power2_eq_square)
  from bmi_is_rounded_quotient [of 160 56] tie exact show ?thesis
    by simp
qed

text \<open>On the sliders' ranges the hundredths stay between 0 and 1000.\<close>

lemma bmi_slider:
  assumes "140 \<le> h" "h \<le> 220" "40 \<le> w" "w \<le> 150"
  obtains k where "bmi_calculated h w = Inr (to_float (of_int k / 100))"
    and "\<bar>of_int k / 100 - of_int w / (of_int h / 100)\<^sup>2\<bar> \<le> (1 / 200 :: real)"
    and "0 \<le> real_of_int k / 100" and "real_of_int k / 100 \<le> 1000"
proof -
  from assms have "0 < h" "0 \<le> w" "w \<le> 10 ^ 8"
    by simp_all
  then obtain k where k: "bmi_calculated h w = Inr (to_float (of_int k / 100))"
      "\<bar>of_int k / 100 - of_int w / (of_int h / 100)\<^sup>2\<bar> \<le> (1 / 200 :: real)"
    by (rule bmi_calculated_nearest)
  from exact_bmi_bounds [OF assms] k(2)
  have "0 \<le> real_of_int k / 100" and "real_of_int k / 100 \<le> 1000"
    by linarith+
  with k show ?thesis
    by (rule that)
qed

text \<open>
  C7. On the sliders' ranges, heights from 140 to 220 and weights from 40 to 150, the
  BMI metric is strictly increasing in the weight and strictly decreasing in the height.
\<close>

theorem bmi_strictly_monotone:
  "(140 \<le> h \<and> h \<le> 220 \<and> 40 \<le> w1 \<and> w1 < w2 \<and> w2 \<le> 150 \<longrightarrow>
      (\<exists>b1 b2. bmi_calculated h w1 = Inr b1 \<and> bmi_calculated h w2 = Inr b2 \<and> b1 < b2)) \<and>
   (140 \<le> h1 \<and> h1 < h2 \<and> h2 \<le> 220 \<and> 40 \<le> w \<and> w \<le> 150 \<longrightarrow>
      (\<exists>b1 b2. bmi_calculated h1 w = Inr b1 \<and> bmi_calculated h2 w = Inr b2 \<and> b2 < b1))"
proof (intro conjI impI)
  assume "140 \<le> h \<and> h \<le> 220 \<and> 40 \<le> w1 \<and> w1 < w2 \<and> w2 \<le> 150"
  then have dom: "140 \<le> h" "h \<le> 220" "40 \<le> w1" "w1 \<le> 150" "40 \<le> w2" "w2 \<le> 150"
      and lt: "w1 < w2"
    by simp_all
  obtain k1 where k1: "bmi_calculated h w1 = Inr (to_float (of_int k1 / 100))"
      "\<bar>of_int k1 / 100 - of_int w1 / (of_int h / 100)\<^sup>2\<bar> \<le> (1 / 200 :: real)"
      "0 \<le> real_of_int k1 / 100"
    using dom by (auto elim: bmi_slider [of h w1])
  obtain k2 where k2: "bmi_calculated h w2 = Inr (to_float (of_int k2 / 100))"
      "\<bar>of_int k2 / 100 - of_int w2 / (of_int h / 100)\<^sup>2\<bar> \<le> (1 / 200 :: real)"
      "real_of_int k2 / 100 \<le> 1000"
    using dom by (auto elim: bmi_slider [of h w2])
  from exact_bmi_weight_gap [OF dom(1,2) lt] k1(2) k2(2)
  have "real_of_int k1 / 100 + 1 / 100 \<le> real_of_int k2 / 100"
    by linarith
  with k1(3) have "to_float (of_int k1 / 100) < to_float (of_int k2 / 100)"
    using k2(3) by (rule to_float_separates)
  with k1(1) k2(1)
  show "\<exists>b1 b2. bmi_calculated h w1 = Inr b1 \<and> bmi_calculated h w2 = Inr b2 \<and> b1 < b2"
    by blast
next
  assume "140 \<le> h1 \<and> h1 < h2 \<and> h2 \<le> 220 \<and> 40 \<le> w \<and> w \<le> 150"
  then have dom: "140 \<le> h1" "h1 \<le> 220" "140 \<le> h2" "h2 \<le> 220" "40 \<le> w" "w \<le> 150"
      and lt: "h1 < h2"
    by simp_all
  obtain k1 where k1: "bmi_calculated h1 w = Inr (to_float (of_int k1 / 100))"
      "\<bar>of_int k1 / 100 - of_int w / (of_int h1 / 100)\<^sup>2\<bar> \<le> (1 / 200 :: real)"
      "real_of_int k1 / 100 \<le> 1000"
    using dom by (auto elim: bmi_slider [of h1 w])
  obtain k2 where k2: "bmi_calculated h2 w = Inr (to_float (of_int k2 / 100))"
      "\<bar>of_int k2 / 100 - of_int w / (of_int h2 / 100)\<^sup>2\<bar> \<le> (1 / 200 :: real)"
      "0 \<le> real_of_int k2 / 100"
    using dom by (auto elim: bmi_slider [of h2 w])
  from exact_bmi_height_gap [OF dom(1) lt dom(4,5)] k1(2) k2(2)
  have "real_of_int k2 / 100 + 1 / 100 \<le> real_of_int k1 / 100"
    by linarith
  with k2(3) have "to_float (of_int k2 / 100) < to_float (of_int k1 / 100)"
    using k1(3) by (rule to_float_separates)
  with k1(1) k2(1)
  show "\<exists>b1 b2. bmi_calculated h1 w = Inr b1 \<and> bmi_calculated h2 w = Inr b2 \<and> b2 < b1"
    by blast
qed

theorem bmi_strictly_monotone_witness:
  "(140::int) \<le> 175 \<and> (175::int) \<le> 220 \<and> (40::int) \<le> 70 \<and> (70::int) < 71 \<and> (71::int) \<le> 150 \<and>
   (\<exists>b1 b2. bmi_calculated 175 70 = Inr b1 \<and> bmi_calculated 175 71 = Inr b2 \<and> b1 < b2) \<and>
   (175::int) < 176 \<and> (176::int) \<le> 220 \<and>
   (\<exists>b1 b2. bmi_calculated 175 70 = Inr b1 \<and> bmi_calculated 176 70 = Inr b2 \<and> b2 < b1)"
  using bmi_strictly_monotone [of 175 70 71 175 176 70]
  by simp

text \<open>
  The claim C8 as the spec words it fails for a negative height: at -175 cm and 70 kg
  nothing is raised and the metric is 22.86, as for 175 cm.
\<close>

theorem negative_height_is_accepted:
  "bmi_calculated (- 175) 70 = Inr (to_float 22.86)"
  by code_simp

text \<open>A run with the height at zero ends at line 55.\<close>

lemma app_zero_height:
  assumes "height ws = 0"
  shows "isl (snd (app e ws s))" and "calls (fst (app e ws s)) = calls s"
    and "cache s \<noteq> None \<or> \<not> isl (load_model e) \<Longrightarrow> snd (app e ws s) = Inl ZeroDivisionError"
proof -
  from assms have z: "bmi_calculated (height ws) (weight ws) = Inl ZeroDivisionError"
    by (simp add: bmi_calculated_def)
  show "isl (snd (app e ws s))"
    by (auto simp: app_def cache_resource_def z split: option.splits sum.splits)
  show "calls (fst (app e ws s)) = calls s"
    by (auto simp: app_def cache_resource_def z split: option.splits sum.splits)
  show "snd (app e ws s) = Inl ZeroDivisionError" if "cache s \<noteq> None \<or> \<not> isl (load_model e)"
    using that by (auto simp: app_def cache_resource_def z split: option.splits sum.splits)
qed

text \<open>
  C8, as the code has it. For heights and weights of magnitude up to a million, the
  computation raises ZeroDivisionError at height 0, raises nothing at any other height,
  and gives a negative height the result of its absolute value. In the script the error
  ends the run: with the height at zero every run ends with an exception and without a
  call of the predictor, and the exception is ZeroDivisionError whenever the artifact is
  in the store or loads. For the values the sliders can return the computation raises
  nothing, and a run without a click, with the artifact in the store or loading, ends
  without an exception.
\<close>

theorem bmi_fails_only_at_zero_height:
  "(\<bar>h\<bar> \<le> 10 ^ 6 \<and> \<bar>w\<bar> \<le> 10 ^ 6 \<longrightarrow>
      (h = 0 \<longrightarrow> bmi_calculated h w = Inl ZeroDivisionError) \<and>
      (h \<noteq> 0 \<longrightarrow> \<not> isl (bmi_calculated h w)) \<and>
      bmi_calculated (- h) w = bmi_calculated h w) \<and>
   (height ws = 0 \<and> \<bar>weight ws\<bar> \<le> 10 ^ 6 \<longrightarrow>
      isl (snd (app e ws s)) \<and> calls (fst (app e ws s)) = calls s \<and>
      (cache s \<noteq> None \<or> \<not> isl (load_model e) \<longrightarrow>
         snd (app e ws s) = Inl ZeroDivisionError)) \<and>
   (on_sliders ws \<longrightarrow>
      \<not> isl (bmi_calculated (height ws) (weight ws)) \<and>
      (\<not> button ws \<and> (cache s \<noteq> None \<or> \<not> isl (load_model e)) \<longrightarrow>
         \<not> isl (snd (app e ws s))))"
proof (intro impI conjI)
  assume "h = 0"
  then show "bmi_calculated h w = Inl ZeroDivisionError"
    by (simp add: bmi_calculated_def)
next
  assume "h \<noteq> 0"
  then show "\<not> isl (bmi_calculated h w)"
    by (simp add: bmi_calculated_nonzero)
next
  show "bmi_calculated (- h) w = bmi_calculated h w"
    by (simp add: bmi_calculated_def to_float_minus)
next
  assume "height ws = 0 \<and> \<bar>weight ws\<bar> \<le> 10 ^ 6"
  then have z: "height ws = 0"
    by simp
  from z show "isl (snd (app e ws s))"
    by (rule app_zero_height)
  from z show "calls (fst (app e ws s)) = calls s"
    by (rule app_zero_height)
  assume "cache s \<noteq> None \<or> \<not> isl (load_model e)"
  with z show "snd (app e ws s) = Inl ZeroDivisionError"
    by (rule app_zero_height)
next
  assume "on_sliders ws"
  then have nz: "height ws \<noteq> 0"
    by (simp add: on_sliders_def)
  then show ok: "\<not> isl (bmi_calculated (height ws) (weight ws))"
    by (simp add: bmi_calculated_nonzero)
  assume "\<not> button ws \<and> (cache s \<noteq> None \<or> \<not> isl (load_model e))"
  with ok show "\<not> isl (snd (app e ws s))"
    by (auto simp: app_def cache_resource_def split: option.splits sum.splits)
qed

theorem bmi_fails_only_at_zero_height_witness:
  "\<bar>- 175 :: int\<bar> \<le> 10 ^ 6 \<and> \<bar>70 :: int\<bar> \<le> 10 ^ 6 \<and> (- 175 :: int) \<noteq> 0 \<and>
   \<not> isl (bmi_calculated (- 175) 70) \<and>
   bmi_calculated (- (- 175)) 70 = bmi_calculated (- 175) 70 \<and>
   \<bar>0 :: int\<bar> \<le> 10 ^ 6 \<and> bmi_calculated 0 70 = Inl ZeroDivisionError \<and>
   height (defaults\<lparr>height := 0\<rparr>) = 0 \<and>
   \<bar>weight (defaults\<lparr>height := 0\<rparr>)\<bar> \<le> 10 ^ 6 \<and>
   \<not> isl (load_model (installed (constant_model 1000))) \<and>
   snd (app (installed (constant_model 1000)) (defaults\<lparr>height := 0\<rparr>) fresh)
     = Inl ZeroDivisionError \<and>
   calls (fst (app (installed (constant_model 1000)) (defaults\<lparr>height := 0\<rparr>) fresh))
     = calls fresh \<and>
   on_sliders (defaults\<lparr>button := False\<rparr>) \<and>
   \<not> button (defaults\<lparr>button := False\<rparr>) \<and>
   \<not> isl (bmi_calculated 175 70) \<and>
   \<not> isl (snd (app (installed (constant_model 1000)) (defaults\<lparr>button := False\<rparr>) fresh))"
proof -
  have load: "load_model (installed (constant_model 1000)) = Inr (constant_model 1000)"
    by (simp add: load_model_def installed_def open_rb_def path_join_def)
  from bmi_fails_only_at_zero_height
         [of "- 175" 70 defaults "installed (constant_model 1000)" fresh]
       bmi_fails_only_at_zero_height
         [of 0 70 "defaults\<lparr>height := 0\<rparr>" "installed (constant_model 1000)" fresh]
       bmi_fails_only_at_zero_height
         [of 0 70 "defaults\<lparr>button := False\<rparr>" "installed (constant_model 1000)" fresh]
       load
  show ?thesis
    by (simp add: defaults_def fresh_def on_sliders_def)
qed

end
